theory Spec2Isabelle
  imports Main "HOL-Library.Sublist" "HOL-Library.AList"
begin

section \<open>Task data structures (task.py)\<close>

subsection \<open>Timestamps\<close>

text \<open>
  \<^verbatim>\<open>datetime\<close> objects as \<^verbatim>\<open>datetime.now()\<close> returns them: naive (no time zone), seven
  calendar fields. \<^verbatim>\<open>isoformat()\<close> prints \<^verbatim>\<open>YYYY-MM-DDTHH:MM:SS\<close>, followed by
  \<^verbatim>\<open>.ffffff\<close> when the microsecond is not zero. \<^verbatim>\<open>fromisoformat\<close> is modelled on
  these two layouts, the ones the program writes; a string in neither layout, or with
  a field out of range, is not parseable (\<^verbatim>\<open>ValueError\<close> in Python).
\<close>

record datetime =
  year :: nat
  month :: nat
  day :: nat
  hour :: nat
  minute :: nat
  second :: nat
  microsecond :: nat

definition leap_year :: "nat \<Rightarrow> bool" where
  "leap_year y = (y mod 4 = 0 \<and> (y mod 100 \<noteq> 0 \<or> y mod 400 = 0))"

definition days_in_month :: "nat \<Rightarrow> nat \<Rightarrow> nat" where
  "days_in_month y m =
     (if m = 2 then (if leap_year y then 29 else 28)
      else if m = 4 \<or> m = 6 \<or> m = 9 \<or> m = 11 then 30 else 31)"

definition valid_datetime :: "datetime \<Rightarrow> bool" where
  "valid_datetime d =
     (1 \<le> year d \<and> year d \<le> 9999 \<and> 1 \<le> month d \<and> month d \<le> 12 \<and>
      1 \<le> day d \<and> day d \<le> days_in_month (year d) (month d) \<and>
      hour d < 24 \<and> minute d < 60 \<and> second d < 60 \<and> microsecond d < 1000000)"

definition digit_char :: "nat \<Rightarrow> char" where
  "digit_char n = char_of (48 + n)"

definition digit_val :: "char \<Rightarrow> nat option" where
  "digit_val c =
     (let n = (of_char c :: nat) in if 48 \<le> n \<and> n \<le> 57 then Some (n - 48) else None)"

text \<open>\<open>digits w n\<close>: the last \<open>w\<close> decimal digits of \<open>n\<close>, zero-padded (\<^verbatim>\<open>%0wd\<close>).\<close>

fun digits :: "nat \<Rightarrow> nat \<Rightarrow> string" where
  "digits 0 n = []"
| "digits (Suc w) n = digits w (n div 10) @ [digit_char (n mod 10)]"

fun number_acc :: "nat \<Rightarrow> string \<Rightarrow> nat option" where
  "number_acc a [] = Some a"
| "number_acc a (c # cs) =
     (case digit_val c of None \<Rightarrow> None | Some v \<Rightarrow> number_acc (10 * a + v) cs)"

definition number :: "string \<Rightarrow> nat option" where
  "number s = number_acc 0 s"

definition isoformat :: "datetime \<Rightarrow> string" where
  "isoformat d =
     digits 4 (year d) @ ''-'' @ digits 2 (month d) @ ''-'' @ digits 2 (day d) @ ''T'' @
     digits 2 (hour d) @ '':'' @ digits 2 (minute d) @ '':'' @ digits 2 (second d) @
     (if microsecond d = 0 then [] else ''.'' @ digits 6 (microsecond d))"

definition slice :: "nat \<Rightarrow> nat \<Rightarrow> string \<Rightarrow> string" where
  "slice i j s = take (j - i) (drop i s)"

definition fromisoformat :: "string \<Rightarrow> datetime option" where
  "fromisoformat s =
     (if (length s = 19 \<or> length s = 26) \<and>
         slice 4 5 s = ''-'' \<and> slice 7 8 s = ''-'' \<and> slice 10 11 s = ''T'' \<and>
         slice 13 14 s = '':'' \<and> slice 16 17 s = '':'' \<and>
         (length s = 26 \<longrightarrow> slice 19 20 s = ''.'')
      then
        (case (number (slice 0 4 s), number (slice 5 7 s), number (slice 8 10 s),
               number (slice 11 13 s), number (slice 14 16 s), number (slice 17 19 s),
               number (slice 20 26 s)) of
           (Some y, Some mo, Some d, Some h, Some mi, Some sec, Some us) \<Rightarrow>
             (let dt = \<lparr>year = y, month = mo, day = d, hour = h, minute = mi,
                        second = sec, microsecond = us\<rparr>
              in if valid_datetime dt then Some dt else None)
         | _ \<Rightarrow> None)
      else None)"

subsection \<open>Python values\<close>

datatype TaskStatus = PENDING | IN_PROGRESS | COMPLETED | FAILED | WAITING_USER

text \<open>
  The values a task dictionary can hold: the JSON values \<^verbatim>\<open>json.load\<close> produces
  (floats left out), and the two kinds of object \<^verbatim>\<open>from_dict\<close> stores into it.
  A \<^verbatim>\<open>dict\<close> is an association list in insertion order.
\<close>

datatype pyval =
    PyNone
  | PyBool bool
  | PyInt int
  | PyStr string
  | PyList "pyval list"
  | PyDict "(string \<times> pyval) list"
  | PyStatus TaskStatus
  | PyDatetime datetime

type_synonym dict = "(string \<times> pyval) list"

datatype error = ValueError | KeyError | TypeError | OSError | JSONDecodeError | EOFError

text \<open>
  What a call does: it returns a value, or raises, or (\<open>Untyped\<close>) returns an object
  one of whose fields holds a value outside its declared type. Python checks no
  annotation, so such a call returns normally; the typed records below cannot hold
  the object, and the model says so instead of inventing a value.
\<close>

datatype 'a outcome = Returned 'a | Raised error | Untyped

fun truthy :: "pyval \<Rightarrow> bool" where
  "truthy PyNone = False"
| "truthy (PyBool b) = b"
| "truthy (PyInt n) = (n \<noteq> 0)"
| "truthy (PyStr s) = (s \<noteq> [])"
| "truthy (PyList xs) = (xs \<noteq> [])"
| "truthy (PyDict kvs) = (kvs \<noteq> [])"
| "truthy (PyStatus s) = True"
| "truthy (PyDatetime d) = True"

subsection \<open>TaskStatus\<close>

fun status_value :: "TaskStatus \<Rightarrow> string" where
  "status_value PENDING = ''pending''"
| "status_value IN_PROGRESS = ''in_progress''"
| "status_value COMPLETED = ''completed''"
| "status_value FAILED = ''failed''"
| "status_value WAITING_USER = ''waiting_user''"

text \<open>\<^verbatim>\<open>TaskStatus(v)\<close>: lookup by value; a member is returned as it is; anything else
  is a \<^verbatim>\<open>ValueError\<close>.\<close>

definition status_of_string :: "string \<Rightarrow> TaskStatus option" where
  "status_of_string s =
     (if s = ''pending'' then Some PENDING
      else if s = ''in_progress'' then Some IN_PROGRESS
      else if s = ''completed'' then Some COMPLETED
      else if s = ''failed'' then Some FAILED
      else if s = ''waiting_user'' then Some WAITING_USER
      else None)"

fun TaskStatus_call :: "pyval \<Rightarrow> error + TaskStatus" where
  "TaskStatus_call (PyStr s) =
     (case status_of_string s of None \<Rightarrow> Inl ValueError | Some st \<Rightarrow> Inr st)"
| "TaskStatus_call (PyStatus st) = Inr st"
| "TaskStatus_call v = Inl ValueError"

text \<open>\<^verbatim>\<open>datetime.fromisoformat(v)\<close>: \<^verbatim>\<open>TypeError\<close> unless \<open>v\<close> is a string.\<close>

fun fromisoformat_call :: "pyval \<Rightarrow> error + datetime" where
  "fromisoformat_call (PyStr s) =
     (case fromisoformat s of None \<Rightarrow> Inl ValueError | Some d \<Rightarrow> Inr d)"
| "fromisoformat_call v = Inl TypeError"

subsection \<open>Task\<close>

record Task =
  task_id :: string
  title :: string
  description :: string
  status :: TaskStatus
  result :: "string option"
  created_at :: datetime
  completed_at :: "datetime option"
  metadata :: dict

definition to_dict :: "Task \<Rightarrow> dict" where
  "to_dict self =
     [(''id'', PyStr (task_id self)),
      (''title'', PyStr (title self)),
      (''description'', PyStr (description self)),
      (''status'', PyStr (status_value (status self))),
      (''result'', (case result self of None \<Rightarrow> PyNone | Some r \<Rightarrow> PyStr r)),
      (''created_at'', PyStr (isoformat (created_at self))),
      (''completed_at'',
         (case completed_at self of None \<Rightarrow> PyNone | Some c \<Rightarrow> PyStr (isoformat c))),
      (''metadata'', PyDict (metadata self))]"

text \<open>
  \<^verbatim>\<open>cls(**data)\<close>, the generated \<^verbatim>\<open>__init__\<close> of the dataclass: a key that is no
  field, or a missing \<^verbatim>\<open>id\<close>, \<^verbatim>\<open>title\<close> or \<^verbatim>\<open>description\<close>, is a \<^verbatim>\<open>TypeError\<close>;
  the other fields have defaults (\<open>now\<close> is what the default factory of
  \<^verbatim>\<open>created_at\<close> would read from the clock).
\<close>

definition Task_fields :: "string list" where
  "Task_fields = [''id'', ''title'', ''description'', ''status'', ''result'',
                  ''created_at'', ''completed_at'', ''metadata'']"

fun as_str :: "pyval \<Rightarrow> string option" where
  "as_str (PyStr s) = Some s"
| "as_str v = None"

fun as_opt_str :: "pyval \<Rightarrow> string option option" where
  "as_opt_str PyNone = Some None"
| "as_opt_str (PyStr s) = Some (Some s)"
| "as_opt_str v = None"

fun as_status :: "pyval \<Rightarrow> TaskStatus option" where
  "as_status (PyStatus s) = Some s"
| "as_status v = None"

fun as_datetime :: "pyval \<Rightarrow> datetime option" where
  "as_datetime (PyDatetime d) = Some d"
| "as_datetime v = None"

fun as_opt_datetime :: "pyval \<Rightarrow> datetime option option" where
  "as_opt_datetime PyNone = Some None"
| "as_opt_datetime (PyDatetime d) = Some (Some d)"
| "as_opt_datetime v = None"

fun as_dict :: "pyval \<Rightarrow> dict option" where
  "as_dict (PyDict kvs) = Some kvs"
| "as_dict v = None"

definition get_default :: "dict \<Rightarrow> string \<Rightarrow> pyval \<Rightarrow> pyval" where
  "get_default d k v = (case map_of d k of None \<Rightarrow> v | Some x \<Rightarrow> x)"

definition typed_Task :: "datetime \<Rightarrow> dict \<Rightarrow> Task option" where
  "typed_Task now kwargs =
     (case (as_str (get_default kwargs ''id'' PyNone),
            as_str (get_default kwargs ''title'' PyNone),
            as_str (get_default kwargs ''description'' PyNone),
            as_status (get_default kwargs ''status'' (PyStatus PENDING)),
            as_opt_str (get_default kwargs ''result'' PyNone),
            as_datetime (get_default kwargs ''created_at'' (PyDatetime now)),
            as_opt_datetime (get_default kwargs ''completed_at'' PyNone),
            as_dict (get_default kwargs ''metadata'' (PyDict []))) of
        (Some i, Some t, Some d, Some st, Some r, Some c, Some ca, Some m) \<Rightarrow>
          Some \<lparr>task_id = i, title = t, description = d, status = st, result = r,
                created_at = c, completed_at = ca, metadata = m\<rparr>
      | _ \<Rightarrow> None)"

definition Task_init :: "datetime \<Rightarrow> dict \<Rightarrow> Task outcome" where
  "Task_init now kwargs =
     (if \<not> (\<forall>k \<in> set (map fst kwargs). k \<in> set Task_fields) then Raised TypeError
      else if map_of kwargs ''id'' = None \<or> map_of kwargs ''title'' = None \<or>
              map_of kwargs ''description'' = None then Raised TypeError
      else case typed_Task now kwargs of None \<Rightarrow> Untyped | Some t \<Rightarrow> Returned t)"

text \<open>
  \<^verbatim>\<open>Task.from_dict(data)\<close>. The three assignments write into the caller's dictionary,
  so the model returns the dictionary as the call leaves it, next to the outcome.
  A missing key is a \<^verbatim>\<open>KeyError\<close>. \<^verbatim>\<open>if data['completed_at']:\<close> tests truthiness.
\<close>

definition from_dict :: "datetime \<Rightarrow> dict \<Rightarrow> Task outcome \<times> dict" where
  "from_dict now data =
     (case map_of data ''status'' of
        None \<Rightarrow> (Raised KeyError, data)
      | Some sv \<Rightarrow>
     (case TaskStatus_call sv of
        Inl e \<Rightarrow> (Raised e, data)
      | Inr st \<Rightarrow>
     (let data1 = AList.update ''status'' (PyStatus st) data in
      case map_of data1 ''created_at'' of
        None \<Rightarrow> (Raised KeyError, data1)
      | Some cv \<Rightarrow>
     (case fromisoformat_call cv of
        Inl e \<Rightarrow> (Raised e, data1)
      | Inr dt \<Rightarrow>
     (let data2 = AList.update ''created_at'' (PyDatetime dt) data1 in
      case map_of data2 ''completed_at'' of
        None \<Rightarrow> (Raised KeyError, data2)
      | Some pv \<Rightarrow>
          if truthy pv then
            (case fromisoformat_call pv of
               Inl e \<Rightarrow> (Raised e, data2)
             | Inr ct \<Rightarrow>
                 (let data3 = AList.update ''completed_at'' (PyDatetime ct) data2
                  in (Task_init now data3, data3)))
          else (Task_init now data2, data2))))))"

subsection \<open>Workflow\<close>

record Workflow =
  workflow_id :: string
  workflow_title :: string
  workflow_description :: string
  tasks :: "Task list"
  current_task_index :: int
  workflow_created_at :: datetime
  workflow_metadata :: dict

definition add_task :: "Workflow \<Rightarrow> Task \<Rightarrow> Workflow" where
  "add_task self task = self\<lparr>tasks := tasks self @ [task]\<rparr>"

definition get_current_task :: "Workflow \<Rightarrow> Task option" where
  "get_current_task self =
     (if 0 \<le> current_task_index self \<and> current_task_index self < int (length (tasks self))
      then Some (tasks self ! nat (current_task_index self)) else None)"

definition next_task :: "Workflow \<Rightarrow> bool \<times> Workflow" where
  "next_task self =
     (if current_task_index self < int (length (tasks self)) - 1
      then (True, self\<lparr>current_task_index := current_task_index self + 1\<rparr>)
      else (False, self))"

definition is_complete :: "Workflow \<Rightarrow> bool" where
  "is_complete self = list_all (\<lambda>task. status task = COMPLETED) (tasks self)"

definition Workflow_to_dict :: "Workflow \<Rightarrow> dict" where
  "Workflow_to_dict self =
     [(''id'', PyStr (workflow_id self)),
      (''title'', PyStr (workflow_title self)),
      (''description'', PyStr (workflow_description self)),
      (''tasks'', PyList (map (\<lambda>task. PyDict (to_dict task)) (tasks self))),
      (''current_task_index'', PyInt (current_task_index self)),
      (''created_at'', PyStr (isoformat (workflow_created_at self))),
      (''metadata'', PyDict (workflow_metadata self))]"

text \<open>
  The file system is a map from paths to file contents. \<^verbatim>\<open>json.dump\<close> and
  \<^verbatim>\<open>json.load\<close> belong to the Python library and are parameters: \<open>dump v\<close> is
  \<open>Inr\<close> the document written, or \<open>Inl\<close> the text already written when the encoder
  raises \<^verbatim>\<open>TypeError\<close> on a value it cannot serialise; \<open>loads text\<close> is \<open>None\<close>
  when the text is no JSON document. \<open>writable\<close> tells whether \<^verbatim>\<open>open(path, 'w')\<close>
  succeeds. \<^verbatim>\<open>save\<close> overwrites the file in place.
\<close>

type_synonym files = "string \<Rightarrow> string option"

definition save ::
  "(pyval \<Rightarrow> string + string) \<Rightarrow> (string \<Rightarrow> bool) \<Rightarrow> Workflow \<Rightarrow> string \<Rightarrow> files
     \<Rightarrow> unit outcome \<times> files" where
  "save dump writable self filepath fs =
     (if \<not> writable filepath then (Raised OSError, fs)
      else case dump (PyDict (Workflow_to_dict self)) of
        Inl written \<Rightarrow> (Raised TypeError, fs(filepath \<mapsto> written))
      | Inr text \<Rightarrow> (Returned (), fs(filepath \<mapsto> text)))"

text \<open>\<^verbatim>\<open>data[key]\<close>: only a dictionary can be indexed by a string.\<close>

fun getitem :: "pyval \<Rightarrow> string \<Rightarrow> error + pyval" where
  "getitem (PyDict kvs) k = (case map_of kvs k of None \<Rightarrow> Inl KeyError | Some v \<Rightarrow> Inr v)"
| "getitem v k = Inl TypeError"

text \<open>Iterating a value: a list gives its items, a dictionary its keys, a string
  its characters; nothing else is iterable.\<close>

fun iterate :: "pyval \<Rightarrow> error + pyval list" where
  "iterate (PyList xs) = Inr xs"
| "iterate (PyDict kvs) = Inr (map (\<lambda>kv. PyStr (fst kv)) kvs)"
| "iterate (PyStr s) = Inr (map (\<lambda>c. PyStr [c]) s)"
| "iterate v = Inl TypeError"

fun from_dict_call :: "datetime \<Rightarrow> pyval \<Rightarrow> Task outcome" where
  "from_dict_call now (PyDict kvs) = fst (from_dict now kvs)"
| "from_dict_call now v = Raised TypeError"

text \<open>The list comprehension over \<^verbatim>\<open>data['tasks']\<close>: the first exception ends it.\<close>

fun from_dict_all :: "datetime \<Rightarrow> pyval list \<Rightarrow> Task list outcome" where
  "from_dict_all now [] = Returned []"
| "from_dict_all now (v # vs) =
     (case from_dict_call now v of
        Raised e \<Rightarrow> Raised e
      | Untyped \<Rightarrow> (case from_dict_all now vs of Raised e \<Rightarrow> Raised e | _ \<Rightarrow> Untyped)
      | Returned t \<Rightarrow>
          (case from_dict_all now vs of Returned ts \<Rightarrow> Returned (t # ts) | r \<Rightarrow> r))"

definition Workflow_fields :: "string list" where
  "Workflow_fields = [''id'', ''title'', ''description'', ''tasks'', ''current_task_index'',
                      ''created_at'', ''metadata'']"

fun as_int :: "pyval \<Rightarrow> int option" where
  "as_int (PyInt n) = Some n"
| "as_int (PyBool b) = Some (if b then 1 else 0)"
| "as_int v = None"

text \<open>\<^verbatim>\<open>cls(**data)\<close> for the workflow; \<open>ts\<close> is the task list that \<^verbatim>\<open>load\<close> has
  stored under \<^verbatim>\<open>'tasks'\<close>, \<open>dt\<close> the timestamp stored under \<^verbatim>\<open>'created_at'\<close>.\<close>

definition typed_Workflow :: "dict \<Rightarrow> datetime \<Rightarrow> Task list \<Rightarrow> Workflow option" where
  "typed_Workflow kwargs dt ts =
     (case (as_str (get_default kwargs ''id'' PyNone),
            as_str (get_default kwargs ''title'' PyNone),
            as_str (get_default kwargs ''description'' PyNone),
            as_int (get_default kwargs ''current_task_index'' (PyInt 0)),
            as_dict (get_default kwargs ''metadata'' (PyDict []))) of
        (Some i, Some t, Some d, Some n, Some m) \<Rightarrow>
          Some \<lparr>workflow_id = i, workflow_title = t, workflow_description = d,
                tasks = ts, current_task_index = n, workflow_created_at = dt,
                workflow_metadata = m\<rparr>
      | _ \<Rightarrow> None)"

definition Workflow_init :: "dict \<Rightarrow> datetime \<Rightarrow> Task list \<Rightarrow> Workflow outcome" where
  "Workflow_init kwargs dt ts =
     (if \<not> (\<forall>k \<in> set (map fst kwargs). k \<in> set Workflow_fields) then Raised TypeError
      else if map_of kwargs ''id'' = None \<or> map_of kwargs ''title'' = None \<or>
              map_of kwargs ''description'' = None then Raised TypeError
      else case typed_Workflow kwargs dt ts of None \<Rightarrow> Untyped | Some w \<Rightarrow> Returned w)"

definition load :: "(string \<Rightarrow> pyval option) \<Rightarrow> datetime \<Rightarrow> files \<Rightarrow> string \<Rightarrow> Workflow outcome" where
  "load loads now fs filepath =
     (case fs filepath of
        None \<Rightarrow> Raised OSError
      | Some text \<Rightarrow>
     (case loads text of
        None \<Rightarrow> Raised JSONDecodeError
      | Some data \<Rightarrow>
     (case getitem data ''created_at'' of
        Inl e \<Rightarrow> Raised e
      | Inr cv \<Rightarrow>
     (case fromisoformat_call cv of
        Inl e \<Rightarrow> Raised e
      | Inr dt \<Rightarrow>
     (case getitem data ''tasks'' of
        Inl e \<Rightarrow> Raised e
      | Inr tv \<Rightarrow>
     (case iterate tv of
        Inl e \<Rightarrow> Raised e
      | Inr items \<Rightarrow>
     (case from_dict_all now items of
        Raised e \<Rightarrow> Raised e
      | Untyped \<Rightarrow>
          (case Workflow_init (case data of PyDict kvs \<Rightarrow> kvs | _ \<Rightarrow> []) dt [] of
             Raised e \<Rightarrow> Raised e | _ \<Rightarrow> Untyped)
      | Returned ts \<Rightarrow>
          Workflow_init (case data of PyDict kvs \<Rightarrow> kvs | _ \<Rightarrow> []) dt ts)))))))"

section \<open>Strings\<close>

text \<open>
  Strings are byte strings. \<^verbatim>\<open>str.lower()\<close> and \<^verbatim>\<open>str.upper()\<close> are modelled on the
  ASCII letters, \<^verbatim>\<open>str.strip()\<close> on the ASCII white space; \<^verbatim>\<open>a in b\<close> on strings is
  \<^const>\<open>sublist\<close>.
\<close>

definition lower_char :: "char \<Rightarrow> char" where
  "lower_char c =
     (let n = (of_char c :: nat) in if 65 \<le> n \<and> n \<le> 90 then char_of (n + 32) else c)"

definition upper_char :: "char \<Rightarrow> char" where
  "upper_char c =
     (let n = (of_char c :: nat) in if 97 \<le> n \<and> n \<le> 122 then char_of (n - 32) else c)"

definition lower :: "string \<Rightarrow> string" where
  "lower s = map lower_char s"

definition upper :: "string \<Rightarrow> string" where
  "upper s = map upper_char s"

definition is_space :: "char \<Rightarrow> bool" where
  "is_space c = (let n = (of_char c :: nat) in (9 \<le> n \<and> n \<le> 13) \<or> (28 \<le> n \<and> n \<le> 32))"

definition strip_chars :: "(char \<Rightarrow> bool) \<Rightarrow> string \<Rightarrow> string" where
  "strip_chars p s = rev (dropWhile p (rev (dropWhile p s)))"

definition strip :: "string \<Rightarrow> string" where
  "strip s = strip_chars is_space s"

definition startswith :: "string \<Rightarrow> string \<Rightarrow> bool" where
  "startswith s p = prefix p s"

text \<open>\<^verbatim>\<open>s.split('\n')\<close>: the lines of \<open>s\<close>, one more than it has newlines.\<close>

fun split_lines :: "string \<Rightarrow> string list" where
  "split_lines [] = [[]]"
| "split_lines (c # cs) =
     (if c = CHR 0x0A then [] # split_lines cs
      else (case split_lines cs of l # ls \<Rightarrow> (c # l) # ls | [] \<Rightarrow> [[c]]))"

text \<open>\<^verbatim>\<open>sep.join(xs)\<close>.\<close>

fun join :: "string \<Rightarrow> string list \<Rightarrow> string" where
  "join sep [] = []"
| "join sep [x] = x"
| "join sep (x # y # ys) = x @ sep @ join sep (y # ys)"

text \<open>\<^verbatim>\<open>str(n)\<close> for integers.\<close>

fun str_nat :: "nat \<Rightarrow> string" where
  "str_nat n = (if n < 10 then [digit_char n] else str_nat (n div 10) @ [digit_char (n mod 10)])"

definition str_int :: "int \<Rightarrow> string" where
  "str_int i = (if i < 0 then ''-'' @ str_nat (nat (- i)) else str_nat (nat i))"

definition nl :: string where
  "nl = [CHR 0x0A]"

section \<open>Papers (paper.py)\<close>

record Paper =
  paper_title :: string
  authors :: "string list"
  paper_year :: "int option"
  abstract :: "string option"
  paper_keywords :: "string list"
  filepath :: "string option"
  url :: "string option"
  summary :: "string option"
  key_findings :: "string list"

text \<open>
  The paper manager is its list of papers. \<^verbatim>\<open>_save_metadata\<close> rewrites a file that
  nothing here reads, and swallows its own exceptions; it is left out.
\<close>

fun get_paper_index :: "Paper list \<Rightarrow> string \<Rightarrow> nat option" where
  "get_paper_index [] t = None"
| "get_paper_index (p # ps) t =
     (if lower (paper_title p) = lower t then Some 0
      else map_option Suc (get_paper_index ps t))"

definition update_paper_summary :: "Paper list \<Rightarrow> string \<Rightarrow> string \<Rightarrow> string list \<Rightarrow> Paper list" where
  "update_paper_summary ps t s findings =
     (case get_paper_index ps t of
        None \<Rightarrow> ps
      | Some i \<Rightarrow>
          ps[i := (if findings \<noteq> []
                   then (ps ! i)\<lparr>summary := Some s, key_findings := findings\<rparr>
                   else (ps ! i)\<lparr>summary := Some s\<rparr>)])"

definition some_text :: "string option \<Rightarrow> bool" where
  "some_text x = (case x of None \<Rightarrow> False | Some s \<Rightarrow> s \<noteq> [])"

definition text_or :: "string option \<Rightarrow> string \<Rightarrow> string" where
  "text_or x d = (case x of None \<Rightarrow> d | Some s \<Rightarrow> if s = [] then d else s)"

definition paper_summary_entry :: "nat \<Rightarrow> Paper \<Rightarrow> string" where
  "paper_summary_entry i paper =
     ''## '' @ str_nat i @ ''. '' @ paper_title paper @ nl @ nl @
     (if authors paper \<noteq> [] then ''**Authors:** '' @ join '', '' (authors paper) @ nl @ nl else []) @
     (case paper_year paper of
        None \<Rightarrow> []
      | Some y \<Rightarrow> if y \<noteq> 0 then ''**Year:** '' @ str_int y @ nl @ nl else []) @
     (if some_text (abstract paper)
      then ''**Abstract:** '' @ text_or (abstract paper) [] @ nl @ nl else []) @
     (if some_text (summary paper)
      then ''**Summary:** '' @ text_or (summary paper) [] @ nl @ nl else []) @
     (if key_findings paper \<noteq> []
      then ''**Key Findings:**'' @ nl @
           concat (map (\<lambda>finding. ''- '' @ finding @ nl) (key_findings paper)) @ nl
      else []) @
     ''---'' @ nl @ nl"

definition generate_papers_summary :: "Paper list \<Rightarrow> string" where
  "generate_papers_summary ps =
     (if ps = [] then ''No papers available.''
      else ''# Papers Summary'' @ nl @ nl @
           concat (map (\<lambda>(i, paper). paper_summary_entry (Suc i) paper) (enumerate 0 ps)))"

section \<open>The task agent (agent.py)\<close>

subsection \<open>The world around the agent\<close>

text \<open>
  What the agent does not own is a parameter. \<open>api n prompt max_tokens\<close> is the answer
  of the generation service to the \<open>n\<close>-th request: \<open>Inr\<close> the text of the response,
  or \<open>Inl\<close> the message of the exception raised. \<open>clock n\<close> is the \<open>n\<close>-th reading of
  \<^verbatim>\<open>datetime.now()\<close>; \<open>stdin n\<close> tells whether the \<open>n\<close>-th \<^verbatim>\<open>input()\<close> returns
  (otherwise it raises \<^verbatim>\<open>EOFError\<close>); \<open>render_error path\<close> is the message of the
  exception raised while the document at \<open>path\<close> is written, if any; \<open>str_of\<close> is
  \<^verbatim>\<open>str()\<close> on values that are not strings.
\<close>

record env =
  api :: "nat \<Rightarrow> string \<Rightarrow> nat \<Rightarrow> string + string"
  clock :: "nat \<Rightarrow> datetime"
  stdin :: "nat \<Rightarrow> bool"
  papers_dir :: string
  generated_dir :: string
  base_dir :: string
  render_error :: "string \<Rightarrow> string option"
  str_of :: "pyval \<Rightarrow> string"
  json_dump :: "pyval \<Rightarrow> string + string"
  writable :: "string \<Rightarrow> bool"

text \<open>
  The state of a \<^verbatim>\<open>TaskAgent\<close>: the requests sent so far, the clock readings and
  \<^verbatim>\<open>input()\<close> calls made so far, the papers of the paper manager, the current
  workflow, and the files on disk.
\<close>

record agent =
  requests :: nat
  ticks :: nat
  inputs :: nat
  papers :: "Paper list"
  current_workflow :: "Workflow option"
  disk :: files

definition datetime_now :: "env \<Rightarrow> agent \<Rightarrow> datetime \<times> agent" where
  "datetime_now e s = (clock e (ticks s), s\<lparr>ticks := Suc (ticks s)\<rparr>)"

text \<open>\<^verbatim>\<open>GeminiClient.generate\<close>: an empty response is an error; an exception of the
  service is raised again. The sampling temperature, the same in every call, is
  left out of the request.\<close>

definition generate :: "env \<Rightarrow> agent \<Rightarrow> string \<Rightarrow> nat \<Rightarrow> (string + string) \<times> agent" where
  "generate e s prompt max_tokens =
     ((case api e (requests s) prompt max_tokens of
         Inl msg \<Rightarrow> Inl msg
       | Inr text \<Rightarrow> if text = [] then Inl ''Empty response from Gemini API'' else Inr text),
      s\<lparr>requests := Suc (requests s)\<rparr>)"

definition path_join :: "string \<Rightarrow> string \<Rightarrow> string" where
  "path_join dir name = dir @ ''/'' @ name"

text \<open>\<^verbatim>\<open>DocumentGenerator.generate_all_formats\<close>: the three documents are written in
  this order; the first failure ends the call.\<close>

definition generate_all_formats :: "env \<Rightarrow> string \<Rightarrow> string \<Rightarrow> string + (string \<times> string) list" where
  "generate_all_formats e content filename =
     (let md = path_join (generated_dir e) (filename @ ''.md'');
          docx = path_join (generated_dir e) (filename @ ''.docx'');
          pdf = path_join (generated_dir e) (filename @ ''.pdf'')
      in case render_error e md of Some msg \<Rightarrow> Inl msg | None \<Rightarrow>
         (case render_error e docx of Some msg \<Rightarrow> Inl msg | None \<Rightarrow>
         (case render_error e pdf of Some msg \<Rightarrow> Inl msg | None \<Rightarrow>
            Inr [(''md'', md), (''docx'', docx), (''pdf'', pdf)])))"

definition text_of :: "env \<Rightarrow> pyval \<Rightarrow> string" where
  "text_of e v = (case v of PyStr s \<Rightarrow> s | _ \<Rightarrow> str_of e v)"

definition lines :: "string list \<Rightarrow> string" where
  "lines ls = join nl ls"

definition topic_of :: "agent \<Rightarrow> string" where
  "topic_of s =
     (case current_workflow s of None \<Rightarrow> ''the topic'' | Some w \<Rightarrow> workflow_description w)"

definition set_metadata :: "string \<Rightarrow> pyval \<Rightarrow> Task \<Rightarrow> Task" where
  "set_metadata k v task = task\<lparr>metadata := AList.update k v (metadata task)\<rparr>"

subsection \<open>Handlers\<close>

definition collection_prompt :: "string \<Rightarrow> string" where
  "collection_prompt topic = lines
     [''Generate a list of important research papers for a literature review on: '' @ topic,
      [],
      ''Provide 5-10 relevant paper suggestions with:'',
      ''- Title'',
      ''- Authors (if known)'',
      ''- Year'',
      ''- Brief description of relevance'',
      [],
      ''Format as a numbered list.'']"

definition handle_paper_collection :: "env \<Rightarrow> agent \<Rightarrow> Task \<Rightarrow> (string + string) \<times> Task \<times> agent" where
  "handle_paper_collection e s task =
     (case generate e s (collection_prompt (topic_of s)) 4096 of
        (Inl msg, s') \<Rightarrow> (Inl msg, task, s')
      | (Inr response, s') \<Rightarrow>
          (Inr (''Generated paper suggestions:'' @ nl @ nl @ response @ nl @ nl @
                ''Note: User needs to download and upload these papers.''),
           set_metadata ''suggested_papers'' (PyStr response) task, s'))"

definition upload_instructions :: "string \<Rightarrow> string" where
  "upload_instructions dir = lines
     [''Papers should be uploaded to: '' @ dir,
      [],
      ''Instructions:'',
      ''1. Download the suggested papers'',
      ''2. Save them in the papers directory: '' @ dir,
      ''3. Register them using the add_papers() method'',
      [],
      ''Once papers are uploaded, continue to the next task.'']"

definition handle_paper_upload :: "env \<Rightarrow> agent \<Rightarrow> Task \<Rightarrow> (string + string) \<times> Task \<times> agent" where
  "handle_paper_upload e s task =
     (Inr (upload_instructions (papers_dir e)), task\<lparr>status := WAITING_USER\<rparr>, s)"

definition analysis_prompt :: "Paper \<Rightarrow> string" where
  "analysis_prompt paper = lines
     [''Analyze the following research paper and provide:'',
      ''1. A brief summary (2-3 sentences)'',
      ''2. Key findings (3-5 bullet points)'',
      ''3. Relevance to the literature review'',
      [],
      ''Paper Title: '' @ paper_title paper,
      ''Authors: '' @ (if authors paper \<noteq> [] then join '', '' (authors paper) else ''Unknown''),
      ''Abstract: '' @ text_or (abstract paper) ''Not available'',
      [],
      ''Provide a concise analysis.'']"

definition extract_key_findings :: "string \<Rightarrow> string list" where
  "extract_key_findings analysis =
     map (\<lambda>line. strip (strip_chars (\<lambda>c. c = CHR ''-'' \<or> c = CHR '' '') line))
       (filter (\<lambda>line. startswith (strip line) ''-'') (split_lines analysis))"

definition analysis_section :: "Paper \<Rightarrow> string \<Rightarrow> string" where
  "analysis_section paper analysis = ''### '' @ paper_title paper @ nl @ nl @ analysis"

definition error_section :: "Paper \<Rightarrow> string \<Rightarrow> string" where
  "error_section paper msg =
     ''### '' @ paper_title paper @ nl @ nl @ ''Error analyzing paper: '' @ msg"

text \<open>The loop over the papers; \<open>acc\<close> is \<^verbatim>\<open>analysis_results\<close>.\<close>

fun analyze_papers :: "env \<Rightarrow> Paper list \<Rightarrow> string list \<Rightarrow> agent \<Rightarrow> string list \<times> agent" where
  "analyze_papers e [] acc s = (acc, s)"
| "analyze_papers e (paper # rest) acc s =
     (case generate e s (analysis_prompt paper) 4096 of
        (Inr analysis, s') \<Rightarrow>
          analyze_papers e rest (acc @ [analysis_section paper analysis])
            (s'\<lparr>papers := update_paper_summary (papers s') (paper_title paper) analysis
                             (take 5 (extract_key_findings analysis))\<rparr>)
      | (Inl msg, s') \<Rightarrow>
          analyze_papers e rest (acc @ [error_section paper msg]) s')"

definition handle_paper_analysis :: "env \<Rightarrow> agent \<Rightarrow> Task \<Rightarrow> (string + string) \<times> Task \<times> agent" where
  "handle_paper_analysis e s task =
     (if papers s = [] then
        (Inr ''No papers available for analysis. Please upload papers first.'', task, s)
      else
        (case analyze_papers e (papers s) [] s of
           (analysis_results, s') \<Rightarrow>
             (let full_analysis = join (nl @ nl) analysis_results in
              (Inr (''Analyzed '' @ str_nat (length (papers s)) @ '' papers.'' @ nl @ nl @
                    full_analysis),
               set_metadata ''paper_analysis'' (PyStr full_analysis) task, s'))))"

definition papers_context :: "Paper list \<Rightarrow> string" where
  "papers_context ps =
     (if ps = [] then []
      else ''Available papers:'' @ nl @
           concat (map (\<lambda>paper.
             ''- '' @ paper_title paper @
             (if some_text (summary paper)
              then '': '' @ take 200 (text_or (summary paper) []) @ ''...'' else []) @ nl) ps))"

definition outline_prompt :: "string \<Rightarrow> string \<Rightarrow> string" where
  "outline_prompt topic context = lines
     [''Create a comprehensive outline for a literature review on: '' @ topic,
      [],
      context,
      [],
      ''The outline should include:'',
      ''1. Introduction'',
      ''2. Background/Context'',
      ''3. Main themes/sections (3-5 major sections)'',
      ''4. Discussion'',
      ''5. Conclusion'',
      ''6. References'',
      [],
      ''For each section, provide:'',
      ''- Section title'',
      ''- 2-3 key points to cover'',
      ''- Relevant papers to cite (if applicable)'',
      [],
      ''Format as a structured markdown outline.'']"

definition handle_outline_creation :: "env \<Rightarrow> agent \<Rightarrow> Task \<Rightarrow> (string + string) \<times> Task \<times> agent" where
  "handle_outline_creation e s task =
     (case generate e s (outline_prompt (topic_of s) (papers_context (papers s))) 2048 of
        (Inl msg, s') \<Rightarrow> (Inl msg, task, s')
      | (Inr outline, s') \<Rightarrow>
          (Inr outline,
           set_metadata ''outline'' (PyStr outline) task,
           s'\<lparr>current_workflow :=
                 map_option (\<lambda>w. w\<lparr>workflow_metadata :=
                                      AList.update ''outline'' (PyStr outline) (workflow_metadata w)\<rparr>)
                   (current_workflow s')\<rparr>))"

definition stored_outline :: "env \<Rightarrow> agent \<Rightarrow> Task \<Rightarrow> string" where
  "stored_outline e s task =
     (case (case current_workflow s of None \<Rightarrow> None
            | Some w \<Rightarrow> map_of (workflow_metadata w) ''outline'') of
        Some v \<Rightarrow> text_of e v
      | None \<Rightarrow> (case map_of (metadata task) ''outline'' of
                   Some v \<Rightarrow> text_of e v
                 | None \<Rightarrow> []))"

definition writing_prompt :: "string \<Rightarrow> string \<Rightarrow> string \<Rightarrow> string" where
  "writing_prompt topic outline papers_summary = lines
     [''Write a comprehensive literature review on: '' @ topic,
      [],
      ''Use the following outline:'',
      outline,
      [],
      ''Papers available for citation:'',
      papers_summary,
      [],
      ''Write a complete, well-structured literature review with:'',
      ''- Clear introduction'',
      ''- Thorough analysis of the literature'',
      ''- Proper flow between sections'',
      ''- Insightful discussion'',
      ''- Strong conclusion'',
      [],
      ''Format in Markdown with proper headings and citations.'']"

text \<open>\<^verbatim>\<open>strftime('%Y%m%d_%H%M%S')\<close>.\<close>

definition strftime_stamp :: "datetime \<Rightarrow> string" where
  "strftime_stamp d =
     digits 4 (year d) @ digits 2 (month d) @ digits 2 (day d) @ ''_'' @
     digits 2 (hour d) @ digits 2 (minute d) @ digits 2 (second d)"

definition handle_writing :: "env \<Rightarrow> agent \<Rightarrow> Task \<Rightarrow> (string + string) \<times> Task \<times> agent" where
  "handle_writing e s task =
     (let outline = stored_outline e s task;
          papers_summary = generate_papers_summary (papers s)
      in case generate e s (writing_prompt (topic_of s) outline papers_summary) 4096 of
        (Inl msg, s1) \<Rightarrow> (Inl msg, task, s1)
      | (Inr review_content, s1) \<Rightarrow>
          (case datetime_now e s1 of
             (t, s2) \<Rightarrow>
               (case generate_all_formats e review_content
                       (''literature_review_'' @ strftime_stamp t) of
                  Inl msg \<Rightarrow> (Inl msg, task, s2)
                | Inr output_files \<Rightarrow>
                    (Inr (''Literature review completed!'' @ nl @ nl @
                          ''Generated files:'' @ nl @
                          concat (map (\<lambda>(format_type, path).
                                    ''- '' @ upper format_type @ '': '' @ path @ nl) output_files)),
                     set_metadata ''review_content'' (PyStr review_content)
                       (set_metadata ''output_files''
                          (PyDict (map (\<lambda>(k, v). (k, PyStr v)) output_files)) task),
                     s2))))"

definition generic_prompt :: "Task \<Rightarrow> string" where
  "generic_prompt task = lines
     [''Execute the following task:'',
      [],
      ''Task: '' @ title task,
      ''Description: '' @ description task,
      [],
      ''Provide a detailed response on how to complete this task or the results of completing it.'']"

definition handle_generic_task :: "env \<Rightarrow> agent \<Rightarrow> Task \<Rightarrow> (string + string) \<times> Task \<times> agent" where
  "handle_generic_task e s task =
     (case generate e s (generic_prompt task) 4096 of
        (Inl msg, s') \<Rightarrow> (Inl msg, task, s')
      | (Inr response, s') \<Rightarrow> (Inr response, task, s'))"

subsection \<open>Executing one task\<close>

datatype handler = HCollect | HUpload | HAnalyze | HOutline | HWrite | HGeneric

text \<open>The chain of tests in \<^verbatim>\<open>execute_task\<close>, on \<^verbatim>\<open>task.title.lower()\<close>.\<close>

definition route :: "string \<Rightarrow> handler" where
  "route task_title =
     (if sublist ''collect'' (lower task_title) \<or> sublist ''search'' (lower task_title)
        then HCollect
      else if sublist ''upload'' (lower task_title) \<or> sublist ''download'' (lower task_title)
        then HUpload
      else if sublist ''analyze'' (lower task_title) \<or> sublist ''read'' (lower task_title)
        then HAnalyze
      else if sublist ''outline'' (lower task_title) \<or> sublist ''structure'' (lower task_title)
        then HOutline
      else if sublist ''write'' (lower task_title) \<or> sublist ''review'' (lower task_title)
        then HWrite
      else HGeneric)"

fun run_handler :: "handler \<Rightarrow> env \<Rightarrow> agent \<Rightarrow> Task \<Rightarrow> (string + string) \<times> Task \<times> agent" where
  "run_handler HCollect = handle_paper_collection"
| "run_handler HUpload = handle_paper_upload"
| "run_handler HAnalyze = handle_paper_analysis"
| "run_handler HOutline = handle_outline_creation"
| "run_handler HWrite = handle_writing"
| "run_handler HGeneric = handle_generic_task"

text \<open>
  \<^verbatim>\<open>execute_task\<close>: the task is marked in progress, the handler runs, and its text
  or the message of its exception is recorded.
\<close>

definition execute_task :: "env \<Rightarrow> agent \<Rightarrow> Task \<Rightarrow> bool \<times> Task \<times> agent" where
  "execute_task e s task =
     (case run_handler (route (title task)) e s (task\<lparr>status := IN_PROGRESS\<rparr>) of
        (Inr text, task', s') \<Rightarrow>
          (case datetime_now e s' of
             (t, s'') \<Rightarrow>
               (True,
                task'\<lparr>result := Some text, status := COMPLETED, completed_at := Some t\<rparr>,
                s''))
      | (Inl msg, task', s') \<Rightarrow>
          (False, task'\<lparr>status := FAILED, result := Some (''Error: '' @ msg)\<rparr>, s'))"

subsection \<open>Running a workflow\<close>

text \<open>
  The loop of \<^verbatim>\<open>run_workflow\<close> over \<^verbatim>\<open>workflow.tasks\<close>. The tasks of a workflow are
  distinct objects, so a task is changed only while the loop visits it; the loop
  returns the list as it leaves it: the tasks visited, then the tasks not reached.
  A task that waits for the user is completed after \<^verbatim>\<open>input()\<close> returns, without
  \<^verbatim>\<open>execute_task\<close>; a failed task ends the loop with \<^verbatim>\<open>False\<close>.
\<close>

fun run_tasks :: "env \<Rightarrow> agent \<Rightarrow> Task list \<Rightarrow> bool outcome \<times> Task list \<times> agent" where
  "run_tasks e s [] = (Returned True, [], s)"
| "run_tasks e s (task # rest) =
     (if status task = WAITING_USER then
        (if stdin e (inputs s) then
           (case datetime_now e (s\<lparr>inputs := Suc (inputs s)\<rparr>) of
              (t, s') \<Rightarrow>
                (case run_tasks e s' rest of
                   (out, rest', s'') \<Rightarrow>
                     (out, task\<lparr>status := COMPLETED, completed_at := Some t\<rparr> # rest', s'')))
         else (Raised EOFError, task # rest, s\<lparr>inputs := Suc (inputs s)\<rparr>))
      else
        (case execute_task e s task of
           (success, task', s') \<Rightarrow>
             if \<not> success then (Returned False, task' # rest, s')
             else (case run_tasks e s' rest of
                     (out, rest', s'') \<Rightarrow> (out, task' # rest', s''))))"

text \<open>
  \<^verbatim>\<open>run_workflow\<close>: the workflow becomes the current one, the loop runs, and after a
  full pass the workflow is saved under the base directory. The workflow returned
  is the caller's object as the call leaves it.
\<close>

definition put_tasks :: "Task list \<Rightarrow> Workflow \<Rightarrow> agent \<Rightarrow> Workflow" where
  "put_tasks ts workflow s =
     (case current_workflow s of None \<Rightarrow> workflow | Some w \<Rightarrow> w)\<lparr>tasks := ts\<rparr>"

definition run_workflow :: "env \<Rightarrow> agent \<Rightarrow> Workflow \<Rightarrow> bool outcome \<times> Workflow \<times> agent" where
  "run_workflow e s workflow =
     (case run_tasks e (s\<lparr>current_workflow := Some workflow\<rparr>) (tasks workflow) of
        (out, ts, s') \<Rightarrow>
          (let w = put_tasks ts workflow s';
               s1 = s'\<lparr>current_workflow := Some w\<rparr>
           in case out of
                Returned True \<Rightarrow>
                  (case save (json_dump e) (writable e) w
                          (path_join (base_dir e) (workflow_id w @ ''.json'')) (disk s1) of
                     (Returned u, fs) \<Rightarrow> (Returned True, w, s1\<lparr>disk := fs\<rparr>)
                   | (Raised err, fs) \<Rightarrow> (Raised err, w, s1\<lparr>disk := fs\<rparr>)
                   | (Untyped, fs) \<Rightarrow> (Untyped, w, s1\<lparr>disk := fs\<rparr>))
              | _ \<Rightarrow> (out, w, s1)))"

subsection \<open>The routing table of the specification\<close>

text \<open>
  The precedence order as the specification words it: each row lists the keywords of
  one handler, the rows are tried from the first, and a title matches a row when one
  of its keywords occurs in the title, letter case ignored.
\<close>

definition precedence :: "(string list \<times> handler) list" where
  "precedence =
     [([''collect'', ''search''], HCollect),
      ([''upload'', ''download''], HUpload),
      ([''analyze'', ''read''], HAnalyze),
      ([''outline'', ''structure''], HOutline),
      ([''write'', ''review''], HWrite)]"

definition first_match :: "string \<Rightarrow> handler" where
  "first_match t =
     (case find (\<lambda>row. list_ex (\<lambda>kw. sublist kw (lower t)) (fst row)) precedence of
        Some row \<Rightarrow> snd row
      | None \<Rightarrow> HGeneric)"


subsection \<open>Well-formed objects and sample values\<close>

text \<open>Every \<^verbatim>\<open>datetime\<close> object Python builds has its fields in range.\<close>

definition valid_task :: "Task \<Rightarrow> bool" where
  "valid_task t =
     (valid_datetime (created_at t) \<and>
      (case completed_at t of None \<Rightarrow> True | Some c \<Rightarrow> valid_datetime c))"

definition valid_workflow :: "Workflow \<Rightarrow> bool" where
  "valid_workflow w = (valid_datetime (workflow_created_at w) \<and> list_all valid_task (tasks w))"

definition sample_time :: datetime where
  "sample_time = \<lparr>year = 2024, month = 2, day = 29, hour = 13, minute = 5, second = 59,
                   microsecond = 120\<rparr>"

definition sample_task :: Task where
  "sample_task = \<lparr>task_id = ''t1'', title = ''Task 1'', description = ''Test task'',
                   status = COMPLETED, result = Some ''done'', created_at = sample_time,
                   completed_at = Some sample_time, metadata = [(''k'', PyInt 1)]\<rparr>"

definition sample_workflow :: Workflow where
  "sample_workflow = \<lparr>workflow_id = ''test_wf'', workflow_title = ''Test Workflow'',
                       workflow_description = ''Test'', tasks = [sample_task],
                       current_task_index = 0, workflow_created_at = sample_time,
                       workflow_metadata = []\<rparr>"

subsection \<open>Shapes of records and outcomes\<close>










definition task_of :: "'a \<times> Task \<times> 'b \<Rightarrow> Task" where
  "task_of r = fst (snd r)"



definition sample_env :: env where
  "sample_env =
     \<lparr>api = (\<lambda>n prompt max_tokens. if n = 0 then Inr ''A study.'' else Inl ''quota exceeded''),
      clock = (\<lambda>n. sample_time),
      stdin = (\<lambda>n. True),
      papers_dir = ''output/papers'',
      generated_dir = ''output/generated'',
      base_dir = ''output'',
      render_error = (\<lambda>path. None),
      str_of = (\<lambda>v. []),
      json_dump = (\<lambda>v. Inr ''{}''),
      writable = (\<lambda>path. True)\<rparr>"

definition sample_agent :: agent where
  "sample_agent = \<lparr>requests = 0, ticks = 0, inputs = 0, papers = [],
                    current_workflow = None, disk = Map.empty\<rparr>"

text \<open>\<^verbatim>\<open>Task(id="task_1", title=t, description="d")\<close>, created at the sample time.\<close>

definition pending_task :: "string \<Rightarrow> Task" where
  "pending_task t = \<lparr>task_id = ''task_1'', title = t, description = ''d'', status = PENDING,
                      result = None, created_at = sample_time, completed_at = None,
                      metadata = []\<rparr>"






subsection \<open>What a run leaves behind\<close>



definition workflow_of :: "'a \<times> Workflow \<times> 'b \<Rightarrow> Workflow" where
  "workflow_of r = fst (snd r)"

text \<open>The second default task of \<^verbatim>\<open>_get_default_review_tasks\<close> waits for the user.\<close>

definition waiting_task :: Task where
  "waiting_task = (pending_task ''Upload Papers'')\<lparr>status := WAITING_USER\<rparr>"

definition review_workflow :: Workflow where
  "review_workflow =
     sample_workflow\<lparr>tasks := [pending_task ''Plan'', waiting_task, pending_task ''Plan'',
                                pending_task ''Plan'']\<rparr>"

section \<open>Verification\<close>

subsection \<open>Timestamps print and parse back\<close>

lemma digit_val_digit_char: "n < 10 \<Longrightarrow> digit_val (digit_char n) = Some n"
  by (simp add: digit_val_def digit_char_def Let_def)

lemma length_digits: "length (digits w n) = w"
  by (induction w arbitrary: n) auto

lemma number_acc_append:
  "number_acc a (xs @ ys) = (case number_acc a xs of None \<Rightarrow> None | Some b \<Rightarrow> number_acc b ys)"
  by (induction xs arbitrary: a) (auto split: option.splits)

lemma number_acc_digits: "n < 10 ^ w \<Longrightarrow> number_acc a (digits w n) = Some (a * 10 ^ w + n)"
proof (induction w arbitrary: n a)
  case 0
  then show ?case by simp
next
  case (Suc w)
  have d: "n div 10 < 10 ^ w" using Suc.prems by (simp add: less_mult_imp_div_less mult.commute)
  have m: "n mod 10 < 10" by simp
  show ?case
    using Suc.IH [OF d, of a] digit_val_digit_char [OF m]
    by (simp add: number_acc_append algebra_simps)
qed

lemma number_digits: "n < 10 ^ w \<Longrightarrow> number (digits w n) = Some n"
  by (simp add: number_def number_acc_digits)

lemma fromisoformat_isoformat:
  assumes "valid_datetime d"
  shows "fromisoformat (isoformat d) = Some d"
proof -
  have b: "year d < 10 ^ 4" "month d < 10 ^ 2" "day d < 10 ^ 2" "hour d < 10 ^ 2"
    "minute d < 10 ^ 2" "second d < 10 ^ 2" "microsecond d < 10 ^ 6"
    using assms by (auto simp: valid_datetime_def days_in_month_def split: if_splits)
  have n0: "number [] = Some 0" by (simp add: number_def)
  note p = number_digits [OF b(1)] number_digits [OF b(2)] number_digits [OF b(3)]
    number_digits [OF b(4)] number_digits [OF b(5)] number_digits [OF b(6)]
    number_digits [OF b(7)]
  have r: "\<lparr>year = year d, month = month d, day = day d, hour = hour d, minute = minute d,
            second = second d, microsecond = microsecond d\<rparr> = d" by simp
  show ?thesis
  proof (cases "microsecond d = 0")
    case True
    have r0: "\<lparr>year = year d, month = month d, day = day d, hour = hour d, minute = minute d,
            second = second d, microsecond = 0\<rparr> = d" using True r by simp
    show ?thesis
      using assms True
      by (simp add: isoformat_def fromisoformat_def slice_def length_digits p n0 r0)
  next
    case False
    then show ?thesis
      using assms
      by (simp add: isoformat_def fromisoformat_def slice_def length_digits p n0 r)
  qed
qed

lemma valid_sample_time: "valid_datetime sample_time"
  by (simp add: valid_datetime_def sample_time_def days_in_month_def leap_year_def)

subsection \<open>Serialisation\<close>

lemma status_of_string_value: "status_of_string (status_value st) = Some st"
  by (cases st) (simp_all add: status_of_string_def)

lemma from_dict_to_dict:
  assumes c: "valid_datetime (created_at t)"
    and p: "\<forall>c. completed_at t = Some c \<longrightarrow> valid_datetime c"
  shows "fst (from_dict now (to_dict t)) = Returned t"
proof (cases "completed_at t")
  case None
  then show ?thesis
    using fromisoformat_isoformat [OF c]
    by (cases "result t")
       (simp_all add: from_dict_def to_dict_def status_of_string_value Task_init_def typed_Task_def
          Task_fields_def get_default_def Let_def)
next
  case (Some ct)
  then have "valid_datetime ct" using p by simp
  then have i: "isoformat ct \<noteq> []" "fromisoformat (isoformat ct) = Some ct"
    using fromisoformat_isoformat [of ct] by (auto simp: isoformat_def)
  show ?thesis
    using fromisoformat_isoformat [OF c] Some i
    by (cases "result t")
       (simp_all add: from_dict_def to_dict_def status_of_string_value Task_init_def typed_Task_def
          Task_fields_def get_default_def Let_def)
qed

lemma from_dict_valid_task: "valid_task t \<Longrightarrow> fst (from_dict now (to_dict t)) = Returned t"
  by (rule from_dict_to_dict) (auto simp: valid_task_def)

lemma from_dict_all_to_dict:
  "list_all valid_task ts \<Longrightarrow>
   from_dict_all now (map (\<lambda>task. PyDict (to_dict task)) ts) = Returned ts"
  by (induction ts) (simp_all add: from_dict_valid_task)

lemma load_Workflow_to_dict:
  assumes "valid_workflow w" and "fs path = Some text"
    and "loads text = Some (PyDict (Workflow_to_dict w))"
  shows "load loads now fs path = Returned w"
proof -
  have t: "from_dict_all now (map (\<lambda>task. PyDict (to_dict task)) (tasks w)) = Returned (tasks w)"
    using assms(1) by (simp add: valid_workflow_def from_dict_all_to_dict)
  have c: "fromisoformat (isoformat (workflow_created_at w)) = Some (workflow_created_at w)"
    using assms(1) by (simp add: valid_workflow_def fromisoformat_isoformat)
  have i: "Workflow_init (Workflow_to_dict w) (workflow_created_at w) (tasks w) = Returned w"
    by (simp add: Workflow_init_def typed_Workflow_def Workflow_to_dict_def Workflow_fields_def get_default_def)
  have g: "getitem (PyDict (Workflow_to_dict w)) ''created_at''
             = Inr (PyStr (isoformat (workflow_created_at w)))"
    "getitem (PyDict (Workflow_to_dict w)) ''tasks''
             = Inr (PyList (map (\<lambda>task. PyDict (to_dict task)) (tasks w)))"
    by (simp_all add: Workflow_to_dict_def)
  show ?thesis
    using assms(2,3) by (simp add: load_def g c t i del: getitem.simps)
qed

text \<open>
  Claim C5. Serialisation round trips lose nothing. For every task \<open>t\<close>,
  \<^verbatim>\<open>Task.from_dict(t.to_dict())\<close> returns a task equal to \<open>t\<close> in every field; in
  particular its \<^verbatim>\<open>completed_at\<close> is \<^verbatim>\<open>None\<close> exactly when that of \<open>t\<close> is. For every
  workflow \<open>w\<close>, saving \<open>w\<close> to a writable path and loading that path returns a
  workflow equal to \<open>w\<close>: same tasks in the same order, same ids and statuses, same
  \<^verbatim>\<open>current_task_index\<close>. The timestamps are \<^verbatim>\<open>datetime\<close> objects (fields in range),
  and the JSON library writes the document and reads it back as the same value.
\<close>

theorem serialisation_round_trip:
  assumes "valid_task t" and "valid_workflow w" and "wr path"
    and "dump (PyDict (Workflow_to_dict w)) = Inr text"
    and "loads text = Some (PyDict (Workflow_to_dict w))"
  shows "fst (from_dict now (to_dict t)) = Returned t \<and>
         (\<exists>w'. load loads now (snd (save dump wr w path fs)) path = Returned w' \<and>
               map task_id (tasks w') = map task_id (tasks w) \<and>
               map status (tasks w') = map status (tasks w) \<and>
               current_task_index w' = current_task_index w \<and> w' = w)"
proof -
  have s: "snd (save dump wr w path fs) path = Some text"
    using assms(3,4) by (simp add: save_def)
  have "load loads now (snd (save dump wr w path fs)) path = Returned w"
    using assms(2) s assms(5) by (rule load_Workflow_to_dict)
  then show ?thesis
    using assms(1) by (simp add: from_dict_valid_task)
qed

theorem serialisation_round_trip_witness:
  "valid_task sample_task \<and> valid_workflow sample_workflow \<and>
   fst (from_dict sample_time (to_dict sample_task)) = Returned sample_task \<and>
   load (\<lambda>s. if s = ''doc'' then Some (PyDict (Workflow_to_dict sample_workflow)) else None)
     sample_time
     (snd (save (\<lambda>v. Inr ''doc'') (\<lambda>p. True) sample_workflow ''workflow.json'' Map.empty))
     ''workflow.json'' = Returned sample_workflow"
proof -
  have t: "valid_task sample_task"
    by (simp add: valid_task_def sample_task_def valid_sample_time)
  have w: "valid_workflow sample_workflow"
    by (simp add: valid_workflow_def sample_workflow_def t valid_sample_time)
  show ?thesis
    using t w
      serialisation_round_trip [OF t w, of "\<lambda>p. True" "''workflow.json''" "\<lambda>v. Inr ''doc''" "''doc''"
        "\<lambda>s. if s = ''doc'' then Some (PyDict (Workflow_to_dict sample_workflow)) else None"
        sample_time Map.empty]
    by simp
qed

subsection \<open>Deserialisation: failures and effects\<close>














lemma TaskStatus_call_error: "TaskStatus_call v = Inl e \<Longrightarrow> e = ValueError"
  by (cases v) (auto split: option.splits)

lemma fromisoformat_call_error: "fromisoformat_call v = Inl e \<Longrightarrow> e = ValueError \<or> e = TypeError"
  by (cases v) (auto split: option.splits)

lemma Task_init_error: "Task_init now k = Raised e \<Longrightarrow> e = TypeError"
  by (auto simp: Task_init_def split: if_splits option.splits)

lemma from_dict_error:
  "fst (from_dict now d) = Raised e \<Longrightarrow> e = ValueError \<or> e = KeyError \<or> e = TypeError"
  by (auto simp: from_dict_def Let_def split: option.splits sum.splits if_splits
      dest: TaskStatus_call_error fromisoformat_call_error Task_init_error)

lemma from_dict_call_error:
  "from_dict_call now v = Raised e \<Longrightarrow> e = ValueError \<or> e = KeyError \<or> e = TypeError"
  by (cases v) (auto dest: from_dict_error)

lemma from_dict_all_error:
  "from_dict_all now vs = Raised e \<Longrightarrow> e = ValueError \<or> e = KeyError \<or> e = TypeError"
proof (induction vs)
  case Nil
  then show ?case by simp
next
  case (Cons v vs)
  then show ?case
    by (auto split: outcome.splits dest: from_dict_call_error)
qed

lemma Workflow_init_error: "Workflow_init k dt ts = Raised e \<Longrightarrow> e = TypeError"
  by (auto simp: Workflow_init_def split: if_splits option.splits)

lemma getitem_error: "getitem v k = Inl e \<Longrightarrow> e = KeyError \<or> e = TypeError"
  by (cases v) (auto split: option.splits)

lemma iterate_error: "iterate v = Inl e \<Longrightarrow> e = TypeError"
  by (cases v) auto

lemma load_error:
  assumes "fs path = Some text" and "load loads now fs path = Raised e"
  shows "e \<in> {JSONDecodeError, KeyError, TypeError, ValueError}"
  using assms
  by (auto simp: load_def split: option.splits sum.splits outcome.splits
      dest: getitem_error fromisoformat_call_error iterate_error from_dict_all_error
        Workflow_init_error)











subsection \<open>Routing\<close>

lemma of_char_lt: "(of_char c :: nat) < 256"
  by (cases c) simp

lemma lower_upper_char: "lower_char (upper_char c) = lower_char c"
proof -
  have "(of_char c :: nat) < 256" by (rule of_char_lt)
  then show ?thesis
    by (auto simp: lower_char_def upper_char_def Let_def)
qed

lemma lower_lower_char: "lower_char (lower_char c) = lower_char c"
proof -
  have "(of_char c :: nat) < 256" by (rule of_char_lt)
  then show ?thesis
    by (auto simp: lower_char_def Let_def)
qed

lemma lower_upper: "lower (upper t) = lower t"
  by (simp add: lower_def upper_def lower_upper_char)

lemma lower_lower: "lower (lower t) = lower t"
  by (simp add: lower_def lower_lower_char)

lemma route_first_match: "route t = first_match t"
  by (simp add: route_def first_match_def precedence_def)

lemma route_search_and_write: "route ''Search and Write'' = HCollect"
  by code_simp

lemma sublist_lower_iff:
  "sublist kw (lower t) \<longleftrightarrow> (\<exists>pre u suf. t = pre @ u @ suf \<and> lower u = kw)"
proof
  assume "sublist kw (lower t)"
  then obtain ps ss where "lower t = ps @ kw @ ss" by (auto simp: sublist_def)
  then have "map lower_char t = ps @ kw @ ss" by (simp add: lower_def)
  then obtain a b c where "t = a @ b @ c" "map lower_char b = kw"
    by (auto simp: map_eq_append_conv append_eq_map_conv)
  then show "\<exists>pre u suf. t = pre @ u @ suf \<and> lower u = kw"
    by (auto simp: lower_def)
next
  assume "\<exists>pre u suf. t = pre @ u @ suf \<and> lower u = kw"
  then obtain pre u suf where "t = pre @ u @ suf" "lower u = kw" by blast
  then have "lower t = lower pre @ kw @ lower suf" by (auto simp: lower_def)
  then show "sublist kw (lower t)" unfolding sublist_def by blast
qed

text \<open>
  Claim C4. The handler is selected by case-insensitive substring match on the
  title, in the order collect/search, upload/download, analyze/read,
  outline/structure, write/review, else generic, the first match winning: the chain of
  tests in \<^verbatim>\<open>execute_task\<close> selects what the first matching row of the table
  selects, a keyword matches when some part of the title equals it up to letter
  case, changing the case of the title changes nothing, and the title
  \<^verbatim>\<open>Search and Write\<close> goes to the Collect handler.
\<close>

theorem route_first_match_wins:
  "route t = first_match t \<and>
   (sublist kw (lower t) \<longleftrightarrow> (\<exists>pre u suf. t = pre @ u @ suf \<and> lower u = kw)) \<and>
   route (lower t) = route t \<and> route (upper t) = route t \<and>
   route ''Search and Write'' = HCollect"
proof -
  have l: "route (lower t) = route t" by (simp add: route_def lower_lower)
  have u: "route (upper t) = route t" by (simp add: route_def lower_upper)
  show ?thesis
    using route_first_match [of t] sublist_lower_iff [of kw t] l u route_search_and_write
    by blast
qed

subsection \<open>Handlers and the executor\<close>

lemma generate_state: "snd (generate e s p m) = s\<lparr>requests := Suc (requests s)\<rparr>"
  by (simp add: generate_def)

lemma generate_pair:
  "generate e s p m = (fst (generate e s p m), s\<lparr>requests := Suc (requests s)\<rparr>)"
  by (simp add: generate_def)

lemma collection_failure:
  assumes "handle_paper_collection e s t = (Inl msg, t', s')"
  shows "requests s' = Suc (requests s) \<and> t' = t"
proof (cases "fst (generate e s (collection_prompt (topic_of s)) 4096)")
  case (Inl m)
  then show ?thesis
    using assms generate_pair [of e s "collection_prompt (topic_of s)" 4096]
    by (auto simp: handle_paper_collection_def)
next
  case (Inr r)
  then show ?thesis
    using assms generate_pair [of e s "collection_prompt (topic_of s)" 4096]
    by (auto simp: handle_paper_collection_def)
qed

lemma outline_failure:
  assumes "handle_outline_creation e s t = (Inl msg, t', s')"
  shows "requests s' = Suc (requests s) \<and> t' = t"
proof (cases "fst (generate e s (outline_prompt (topic_of s) (papers_context (papers s))) 2048)")
  case (Inl m)
  then show ?thesis
    using assms generate_pair [of e s "outline_prompt (topic_of s) (papers_context (papers s))" 2048]
    by (auto simp: handle_outline_creation_def)
next
  case (Inr r)
  then show ?thesis
    using assms generate_pair [of e s "outline_prompt (topic_of s) (papers_context (papers s))" 2048]
    by (auto simp: handle_outline_creation_def)
qed

lemma generic_failure:
  assumes "handle_generic_task e s t = (Inl msg, t', s')"
  shows "requests s' = Suc (requests s) \<and> t' = t"
proof (cases "fst (generate e s (generic_prompt t) 4096)")
  case (Inl m)
  then show ?thesis
    using assms generate_pair [of e s "generic_prompt t" 4096]
    by (auto simp: handle_generic_task_def)
next
  case (Inr r)
  then show ?thesis
    using assms generate_pair [of e s "generic_prompt t" 4096]
    by (auto simp: handle_generic_task_def)
qed


lemma writing_failure:
  assumes "handle_writing e s t = (Inl msg, t', s')"
  shows "requests s' = Suc (requests s) \<and> t' = t"
proof -
  let ?p = "writing_prompt (topic_of s) (stored_outline e s t) (generate_papers_summary (papers s))"
  note g = generate_pair [of e s ?p 4096]
  show ?thesis
  proof (cases "fst (generate e s ?p 4096)")
    case (Inl m)
    then show ?thesis
      using assms g by (auto simp: handle_writing_def Let_def)
  next
    case (Inr r)
    show ?thesis
    proof (cases "generate_all_formats e r (''literature_review_'' @
        strftime_stamp (clock e (ticks (s\<lparr>requests := Suc (requests s)\<rparr>))))")
      case (Inl m)
      then show ?thesis
        using assms g Inr by (auto simp: handle_writing_def Let_def datetime_now_def)
    next
      case (Inr files)
      then show ?thesis
        using assms g \<open>fst (generate e s ?p 4096) = Inr r\<close>
        by (auto simp: handle_writing_def Let_def datetime_now_def)
    qed
  qed
qed

lemma analysis_never_fails: "fst (handle_paper_analysis e s t) \<noteq> Inl msg"
  by (cases "analyze_papers e (papers s) [] s") (simp add: handle_paper_analysis_def Let_def)

lemma handler_failure_requests:
  assumes "run_handler h e s t = (Inl msg, t', s')"
  shows "requests s' = Suc (requests s)"
proof (cases h)
  case HCollect
  then show ?thesis using assms collection_failure by simp
next
  case HUpload
  then show ?thesis using assms by (simp add: handle_paper_upload_def)
next
  case HAnalyze
  then show ?thesis using assms analysis_never_fails [of e s t msg] by simp
next
  case HOutline
  then show ?thesis using assms outline_failure by simp
next
  case HWrite
  then show ?thesis using assms writing_failure by simp
next
  case HGeneric
  then show ?thesis using assms generic_failure by simp
qed

lemma set_metadata_frame [simp]:
  "completed_at (set_metadata k v t) = completed_at t"
  "result (set_metadata k v t) = result t"
  "status (set_metadata k v t) = status t"
  by (simp_all add: set_metadata_def)

lemma collection_frame:
  "completed_at (task_of (handle_paper_collection e s t)) = completed_at t \<and>
   result (task_of (handle_paper_collection e s t)) = result t"
  using generate_pair [of e s "collection_prompt (topic_of s)" 4096]
  by (cases "fst (generate e s (collection_prompt (topic_of s)) 4096)")
     (simp_all add: handle_paper_collection_def task_of_def)

lemma upload_frame:
  "completed_at (task_of (handle_paper_upload e s t)) = completed_at t \<and>
   result (task_of (handle_paper_upload e s t)) = result t"
  by (simp add: handle_paper_upload_def task_of_def)

lemma analysis_frame:
  "completed_at (task_of (handle_paper_analysis e s t)) = completed_at t \<and>
   result (task_of (handle_paper_analysis e s t)) = result t"
  by (cases "analyze_papers e (papers s) [] s")
     (simp add: handle_paper_analysis_def Let_def task_of_def)

lemma outline_frame:
  "completed_at (task_of (handle_outline_creation e s t)) = completed_at t \<and>
   result (task_of (handle_outline_creation e s t)) = result t"
  using generate_pair [of e s "outline_prompt (topic_of s) (papers_context (papers s))" 2048]
  by (cases "fst (generate e s (outline_prompt (topic_of s) (papers_context (papers s))) 2048)")
     (simp_all add: handle_outline_creation_def task_of_def)

lemma writing_frame:
  "completed_at (task_of (handle_writing e s t)) = completed_at t \<and>
   result (task_of (handle_writing e s t)) = result t"
proof -
  let ?p = "writing_prompt (topic_of s) (stored_outline e s t) (generate_papers_summary (papers s))"
  note g = generate_pair [of e s ?p 4096]
  show ?thesis
  proof (cases "fst (generate e s ?p 4096)")
    case (Inl m)
    then show ?thesis
      using g by (simp add: handle_writing_def Let_def task_of_def)
  next
    case (Inr r)
    then show ?thesis
      using g
      by (cases "generate_all_formats e r (''literature_review_'' @
            strftime_stamp (clock e (ticks (s\<lparr>requests := Suc (requests s)\<rparr>))))")
         (simp_all add: handle_writing_def Let_def datetime_now_def task_of_def)
  qed
qed

lemma generic_frame:
  "completed_at (task_of (handle_generic_task e s t)) = completed_at t \<and>
   result (task_of (handle_generic_task e s t)) = result t"
  using generate_pair [of e s "generic_prompt t" 4096]
  by (cases "fst (generate e s (generic_prompt t) 4096)")
     (simp_all add: handle_generic_task_def task_of_def)

lemma handler_frame:
  "completed_at (task_of (run_handler h e s t)) = completed_at t \<and>
   result (task_of (run_handler h e s t)) = result t"
  by (cases h)
     (simp_all add: collection_frame upload_frame analysis_frame outline_frame writing_frame
        generic_frame)


lemma route_plan: "route ''Plan'' = HGeneric"
  by code_simp


text \<open>
  Claim C1. \<^verbatim>\<open>execute_task\<close> records what the selected handler did. If the handler
  returns the text \<open>text\<close>, the task gets \<open>text\<close> as its result, the status
  \<^verbatim>\<open>COMPLETED\<close> and the current time as \<^verbatim>\<open>completed_at\<close>, and the call returns true.
  If the handler raises with message \<open>msg\<close>, the task gets the result
  \<^verbatim>\<open>"Error: " + msg\<close> and the status \<^verbatim>\<open>FAILED\<close>, and the call returns false; nothing
  is tried again: the state is the one the handler left, with one request sent to
  the generation service, and \<^verbatim>\<open>completed_at\<close> is not touched.
\<close>

theorem execute_task_outcome:
  assumes "run_handler (route (title task)) e s (task\<lparr>status := IN_PROGRESS\<rparr>) = (r, task', s')"
    and "execute_task e s task = (ok, task'', s'')"
  shows "(\<forall>text. r = Inr text \<longrightarrow>
            ok \<and> result task'' = Some text \<and> status task'' = COMPLETED \<and>
            completed_at task'' = Some (clock e (ticks s'))) \<and>
         (\<forall>msg. r = Inl msg \<longrightarrow>
            \<not> ok \<and> result task'' = Some (''Error: '' @ msg) \<and> status task'' = FAILED \<and>
            completed_at task'' = completed_at task \<and>
            s'' = s' \<and> requests s'' = Suc (requests s))"
proof (cases r)
  case (Inl msg)
  have "completed_at task' = completed_at task"
    using handler_frame [of "route (title task)" e s "task\<lparr>status := IN_PROGRESS\<rparr>"] assms(1)
    by (simp add: task_of_def)
  moreover have "requests s' = Suc (requests s)"
    using assms(1) Inl by (auto dest: handler_failure_requests)
  ultimately show ?thesis
    using assms Inl by (auto simp: execute_task_def)
next
  case (Inr resp)
  then show ?thesis
    using assms by (auto simp: execute_task_def datetime_now_def)
qed


theorem execute_task_outcome_witness:
  "fst (execute_task sample_env sample_agent (pending_task ''Plan'')) \<and>
   result (task_of (execute_task sample_env sample_agent (pending_task ''Plan'')))
     = Some ''A study.'' \<and>
   status (task_of (execute_task sample_env sample_agent (pending_task ''Plan''))) = COMPLETED \<and>
   completed_at (task_of (execute_task sample_env sample_agent (pending_task ''Plan'')))
     = Some sample_time \<and>
   \<not> fst (execute_task sample_env (sample_agent\<lparr>requests := 1\<rparr>) (pending_task ''Plan'')) \<and>
   result (task_of (execute_task sample_env (sample_agent\<lparr>requests := 1\<rparr>) (pending_task ''Plan'')))
     = Some ''Error: quota exceeded'' \<and>
   status (task_of (execute_task sample_env (sample_agent\<lparr>requests := 1\<rparr>) (pending_task ''Plan'')))
     = FAILED"
proof -
  let ?t = "pending_task ''Plan''"
  let ?s = "sample_agent\<lparr>requests := 1\<rparr>"
  have r: "route (title ?t) = HGeneric"
    by (simp add: pending_task_def route_plan)
  have a: "run_handler (route (title ?t)) sample_env sample_agent (?t\<lparr>status := IN_PROGRESS\<rparr>)
             = (Inr ''A study.'', ?t\<lparr>status := IN_PROGRESS\<rparr>, sample_agent\<lparr>requests := 1\<rparr>)"
    unfolding r
    by (simp add: handle_generic_task_def generate_def sample_env_def sample_agent_def)
  have b: "run_handler (route (title ?t)) sample_env ?s (?t\<lparr>status := IN_PROGRESS\<rparr>)
             = (Inl ''quota exceeded'', ?t\<lparr>status := IN_PROGRESS\<rparr>, ?s\<lparr>requests := 2\<rparr>)"
    unfolding r
    by (simp add: handle_generic_task_def generate_def sample_env_def sample_agent_def)
  have c: "clock sample_env n = sample_time" for n
    by (simp add: sample_env_def)
  have x: "execute_task sample_env sample_agent ?t =
      (fst (execute_task sample_env sample_agent ?t),
       fst (snd (execute_task sample_env sample_agent ?t)),
       snd (snd (execute_task sample_env sample_agent ?t)))"
    by simp
  have y: "execute_task sample_env ?s ?t =
      (fst (execute_task sample_env ?s ?t),
       fst (snd (execute_task sample_env ?s ?t)),
       snd (snd (execute_task sample_env ?s ?t)))"
    by simp
  show ?thesis
    using execute_task_outcome [OF a x] execute_task_outcome [OF b y]
    by (simp add: task_of_def c)
qed



subsection \<open>The Analyze handler\<close>








subsection \<open>The loop of the runner\<close>

lemma execute_task_result:
  assumes "execute_task e s t = (ok, t', s')"
  shows "(ok \<longrightarrow> status t' = COMPLETED \<and> result t' \<noteq> None \<and> completed_at t' \<noteq> None) \<and>
         (\<not> ok \<longrightarrow> status t' = FAILED \<and> (\<exists>msg. result t' = Some (''Error: '' @ msg)) \<and>
            completed_at t' = completed_at t)"
proof -
  let ?h = "run_handler (route (title t)) e s (t\<lparr>status := IN_PROGRESS\<rparr>)"
  have f: "completed_at (task_of ?h) = completed_at t"
    using handler_frame [of "route (title t)" e s "t\<lparr>status := IN_PROGRESS\<rparr>"] by simp
  obtain r t1 s1 where h: "?h = (r, t1, s1)" by (cases ?h)
  then have "completed_at t1 = completed_at t" using f by (simp add: task_of_def)
  then show ?thesis
    using assms h by (cases r) (auto simp: execute_task_def datetime_now_def)
qed

lemma run_tasks_length: "length (fst (snd (run_tasks e s ts))) = length ts"
proof (induction ts arbitrary: s)
  case Nil
  then show ?case by simp
next
  case (Cons t ts)
  obtain ok t' s' where x: "execute_task e s t = (ok, t', s')" by (cases "execute_task e s t")
  obtain o1 r1 s1 where a: "run_tasks e s' ts = (o1, r1, s1)" by (cases "run_tasks e s' ts")
  let ?sw = "s\<lparr>inputs := Suc (inputs s), ticks := Suc (ticks s)\<rparr>"
  obtain o2 r2 s2 where b: "run_tasks e ?sw ts = (o2, r2, s2)" by (cases "run_tasks e ?sw ts")
  have la: "length r1 = length ts" using Cons.IH [of s'] a by simp
  have lb: "length r2 = length ts" using Cons.IH [of ?sw] b by simp
  show ?case
    using x a b la lb by (simp add: datetime_now_def)
qed

lemma run_tasks_append_True:
  assumes "run_tasks e s xs = (Returned True, xs', s1)"
    and "run_tasks e s1 ys = (out, ys', s2)"
  shows "run_tasks e s (xs @ ys) = (out, xs' @ ys', s2)"
  using assms
proof (induction xs arbitrary: s xs')
  case Nil
  then show ?case by simp
next
  case (Cons t ts)
  show ?case
  proof (cases "status t = WAITING_USER")
    case True
    let ?sw = "s\<lparr>inputs := Suc (inputs s), ticks := Suc (ticks s)\<rparr>"
    obtain o2 r2 s2' where b: "run_tasks e ?sw ts = (o2, r2, s2')" by (cases "run_tasks e ?sw ts")
    have i: "stdin e (inputs s)"
      using Cons.prems(1) True by (auto split: if_splits)
    then have "o2 = Returned True" "s2' = s1"
      and x: "xs' = t\<lparr>status := COMPLETED, completed_at := Some (clock e (ticks s))\<rparr> # r2"
      using Cons.prems(1) True b by (auto simp: datetime_now_def)
    then have "run_tasks e ?sw (ts @ ys) = (out, r2 @ ys', s2)"
      using Cons.IH [of ?sw r2] b Cons.prems(2) by simp
    then show ?thesis
      using True i x by (simp add: datetime_now_def)
  next
    case False
    obtain ok t' s' where x: "execute_task e s t = (ok, t', s')" by (cases "execute_task e s t")
    obtain o1 r1 s1' where a: "run_tasks e s' ts = (o1, r1, s1')" by (cases "run_tasks e s' ts")
    have ok: "ok" using Cons.prems(1) False x by (auto split: if_splits)
    then have "o1 = Returned True" "s1' = s1" and y: "xs' = t' # r1"
      using Cons.prems(1) False x a by auto
    then have "run_tasks e s' (ts @ ys) = (out, r1 @ ys', s2)"
      using Cons.IH [of s' r1] a Cons.prems(2) by simp
    then show ?thesis
      using False x ok y by simp
  qed
qed

lemma run_tasks_failure:
  assumes "run_tasks e s ts = (Returned False, ts', s')"
  shows "\<exists>i pre si. i < length ts \<and> run_tasks e s (take i ts) = (Returned True, pre, si) \<and>
           status (ts ! i) \<noteq> WAITING_USER \<and>
           execute_task e si (ts ! i) = (False, ts' ! i, s') \<and>
           ts' = pre @ (ts' ! i) # drop (Suc i) ts \<and> length pre = i"
  using assms
proof (induction ts arbitrary: s ts')
  case Nil
  then show ?case by simp
next
  case (Cons t ts)
  show ?case
  proof (cases "status t = WAITING_USER")
    case True
    let ?sw = "s\<lparr>inputs := Suc (inputs s), ticks := Suc (ticks s)\<rparr>"
    let ?t = "t\<lparr>status := COMPLETED, completed_at := Some (clock e (ticks s))\<rparr>"
    obtain o2 r2 s2 where b: "run_tasks e ?sw ts = (o2, r2, s2)" by (cases "run_tasks e ?sw ts")
    have i: "stdin e (inputs s)"
      using Cons.prems True by (auto split: if_splits)
    then have "o2 = Returned False" "s2 = s'" and x: "ts' = ?t # r2"
      using Cons.prems True b by (auto simp: datetime_now_def)
    then obtain j pre si where j: "j < length ts"
      "run_tasks e ?sw (take j ts) = (Returned True, pre, si)"
      "status (ts ! j) \<noteq> WAITING_USER"
      "execute_task e si (ts ! j) = (False, r2 ! j, s')"
      "r2 = pre @ (r2 ! j) # drop (Suc j) ts" "length pre = j"
      using Cons.IH [of ?sw r2] b by blast
    have "run_tasks e s (take (Suc j) (t # ts)) = (Returned True, ?t # pre, si)"
      using True i j(2) by (simp add: datetime_now_def)
    moreover have "ts' = (?t # pre) @ (ts' ! Suc j) # drop (Suc (Suc j)) (t # ts)"
      using x j(5) by simp
    ultimately show ?thesis
      using j x
      by (intro exI [of _ "Suc j"] exI [of _ "?t # pre"] exI [of _ si]) simp
  next
    case False
    obtain ok t' s1 where x: "execute_task e s t = (ok, t', s1)" by (cases "execute_task e s t")
    show ?thesis
    proof (cases ok)
      case False
      then have "ts' = t' # ts" "s1 = s'"
        using Cons.prems \<open>status t \<noteq> WAITING_USER\<close> x by auto
      then show ?thesis
        using \<open>status t \<noteq> WAITING_USER\<close> x False
        by (intro exI [of _ 0] exI [of _ "[]"] exI [of _ s]) simp
    next
      case True
      obtain o1 r1 s2 where a: "run_tasks e s1 ts = (o1, r1, s2)" by (cases "run_tasks e s1 ts")
      then have "o1 = Returned False" "s2 = s'" and y: "ts' = t' # r1"
        using Cons.prems \<open>status t \<noteq> WAITING_USER\<close> x True by auto
      then obtain j pre si where j: "j < length ts"
        "run_tasks e s1 (take j ts) = (Returned True, pre, si)"
        "status (ts ! j) \<noteq> WAITING_USER"
        "execute_task e si (ts ! j) = (False, r1 ! j, s')"
        "r1 = pre @ (r1 ! j) # drop (Suc j) ts" "length pre = j"
        using Cons.IH [of s1 r1] a by blast
      have "run_tasks e s (take (Suc j) (t # ts)) = (Returned True, t' # pre, si)"
        using \<open>status t \<noteq> WAITING_USER\<close> x True j(2) by simp
      moreover have "ts' = (t' # pre) @ (ts' ! Suc j) # drop (Suc (Suc j)) (t # ts)"
        using y j(5) by simp
      ultimately show ?thesis
        using j y
        by (intro exI [of _ "Suc j"] exI [of _ "t' # pre"] exI [of _ si]) simp
    qed
  qed
qed

lemma run_tasks_all_completed:
  assumes "run_tasks e s ts = (Returned True, ts', s')"
  shows "list_all (\<lambda>t. status t = COMPLETED) ts'"
  using assms
proof (induction ts arbitrary: s ts')
  case Nil
  then show ?case by simp
next
  case (Cons t ts)
  show ?case
  proof (cases "status t = WAITING_USER")
    case True
    let ?sw = "s\<lparr>inputs := Suc (inputs s), ticks := Suc (ticks s)\<rparr>"
    obtain o2 r2 s2 where b: "run_tasks e ?sw ts = (o2, r2, s2)" by (cases "run_tasks e ?sw ts")
    have i: "stdin e (inputs s)"
      using Cons.prems True by (auto split: if_splits)
    then have "o2 = Returned True" "s2 = s'"
      and x: "ts' = t\<lparr>status := COMPLETED, completed_at := Some (clock e (ticks s))\<rparr> # r2"
      using Cons.prems True b by (auto simp: datetime_now_def)
    then show ?thesis using Cons.IH [of ?sw r2] b by simp
  next
    case False
    obtain ok t' s1 where x: "execute_task e s t = (ok, t', s1)" by (cases "execute_task e s t")
    obtain o1 r1 s2 where a: "run_tasks e s1 ts = (o1, r1, s2)" by (cases "run_tasks e s1 ts")
    have ok: "ok" using Cons.prems False x by (auto split: if_splits)
    then have "o1 = Returned True" "s2 = s'" and y: "ts' = t' # r1"
      using Cons.prems False x a by auto
    then show ?thesis
      using Cons.IH [of s1 r1] a execute_task_result [OF x] ok by simp
  qed
qed

lemma run_workflow_tasks:
  "tasks (workflow_of (run_workflow e s w))
     = fst (snd (run_tasks e (s\<lparr>current_workflow := Some w\<rparr>) (tasks w)))"
proof -
  obtain out ts s' where r: "run_tasks e (s\<lparr>current_workflow := Some w\<rparr>) (tasks w) = (out, ts, s')"
    by (cases "run_tasks e (s\<lparr>current_workflow := Some w\<rparr>) (tasks w)")
  show ?thesis
  proof (cases "out = Returned True")
    case True
    then show ?thesis
      using r
      by (cases "save (json_dump e) (writable e) (put_tasks ts w s')
            (path_join (base_dir e) (workflow_id (put_tasks ts w s') @ ''.json''))
            (disk (s'\<lparr>current_workflow := Some (put_tasks ts w s')\<rparr>))";
          cases "fst (save (json_dump e) (writable e) (put_tasks ts w s')
            (path_join (base_dir e) (workflow_id (put_tasks ts w s') @ ''.json''))
            (disk (s'\<lparr>current_workflow := Some (put_tasks ts w s')\<rparr>)))")
         (simp_all add: run_workflow_def Let_def workflow_of_def put_tasks_def)
  next
    case False
    then show ?thesis
      using r
      by (cases out; cases "out = Returned False")
         (auto simp: run_workflow_def Let_def workflow_of_def put_tasks_def split: bool.splits)
  qed
qed

lemma run_workflow_not_True:
  assumes "run_tasks e (s\<lparr>current_workflow := Some w\<rparr>) (tasks w) = (out, ts, s')"
    and "out \<noteq> Returned True"
  shows "fst (run_workflow e s w) = out \<and> disk (snd (snd (run_workflow e s w))) = disk s' \<and>
         requests (snd (snd (run_workflow e s w))) = requests s'"
  using assms
  by (cases out) (auto simp: run_workflow_def Let_def split: bool.splits)




lemma statuses_replicate:
  "list_all (\<lambda>t. status t = c) xs \<Longrightarrow> map status xs = replicate (length xs) c"
  by (induction xs) simp_all

lemma run_first_two:
  "run_tasks sample_env (sample_agent\<lparr>current_workflow := Some review_workflow\<rparr>)
     [pending_task ''Plan'', waiting_task]
   = (Returned True,
      [(pending_task ''Plan'')\<lparr>status := COMPLETED, result := Some ''A study.'',
                               completed_at := Some sample_time\<rparr>,
       waiting_task\<lparr>status := COMPLETED, completed_at := Some sample_time\<rparr>],
      sample_agent\<lparr>current_workflow := Some review_workflow, requests := 1, ticks := 2,
                    inputs := 1\<rparr>)"
  by (simp add: execute_task_def pending_task_def waiting_task_def route_plan
      handle_generic_task_def generate_def datetime_now_def sample_env_def sample_agent_def)

text \<open>
  Claim C3. If the executor reports failure on the task at position \<open>i\<close> of a run
  (the tasks before it went through, and \<^verbatim>\<open>execute_task\<close> returns false on it),
  then \<^verbatim>\<open>run_workflow\<close> returns false at once: the tasks after \<open>i\<close> are the ones the
  workflow had (a pending task stays pending), no further request is sent and
  nothing is saved; the tasks before \<open>i\<close> are as the run left them, all completed,
  with their results (nothing is rolled back), and the task at \<open>i\<close> is failed.
\<close>

theorem run_aborts_on_failure:
  assumes "i < length (tasks w)"
    and "run_tasks e (s\<lparr>current_workflow := Some w\<rparr>) (take i (tasks w)) = (Returned True, pre, si)"
    and "status (tasks w ! i) \<noteq> WAITING_USER"
    and "execute_task e si (tasks w ! i) = (False, t', s')"
  shows "fst (run_workflow e s w) = Returned False \<and>
         tasks (workflow_of (run_workflow e s w)) = pre @ t' # drop (Suc i) (tasks w) \<and>
         length pre = i \<and> list_all (\<lambda>t. status t = COMPLETED) pre \<and> status t' = FAILED \<and>
         requests (snd (snd (run_workflow e s w))) = requests s' \<and>
         disk (snd (snd (run_workflow e s w))) = disk s'"
proof -
  let ?s = "s\<lparr>current_workflow := Some w\<rparr>"
  have d: "tasks w = take i (tasks w) @ (tasks w ! i) # drop (Suc i) (tasks w)"
    using assms(1) by (simp add: id_take_nth_drop)
  have f: "run_tasks e si ((tasks w ! i) # drop (Suc i) (tasks w))
             = (Returned False, t' # drop (Suc i) (tasks w), s')"
    using assms(3,4) by simp
  have "run_tasks e ?s (take i (tasks w) @ (tasks w ! i) # drop (Suc i) (tasks w))
          = (Returned False, pre @ t' # drop (Suc i) (tasks w), s')"
    using assms(2) f by (rule run_tasks_append_True)
  then have r: "run_tasks e ?s (tasks w) = (Returned False, pre @ t' # drop (Suc i) (tasks w), s')"
    using d by simp
  have l: "length pre = i"
    using run_tasks_length [of e ?s "take i (tasks w)"] assms(1,2) by simp
  have c: "list_all (\<lambda>t. status t = COMPLETED) pre"
    using assms(2) by (rule run_tasks_all_completed)
  have "status t' = FAILED"
    using execute_task_result [OF assms(4)] by simp
  then show ?thesis
    using run_workflow_not_True [OF r] run_workflow_tasks [of e s w] r l c by simp
qed

theorem run_aborts_on_failure_witness:
  "fst (run_workflow sample_env sample_agent review_workflow) = Returned False \<and>
   map status (tasks (workflow_of (run_workflow sample_env sample_agent review_workflow)))
     = [COMPLETED, COMPLETED, FAILED, PENDING] \<and>
   map result (tasks (workflow_of (run_workflow sample_env sample_agent review_workflow)))
     = [Some ''A study.'', None, Some ''Error: quota exceeded'', None]"
proof -
  let ?si = "sample_agent\<lparr>current_workflow := Some review_workflow, requests := 1, ticks := 2,
                    inputs := 1\<rparr>"
  let ?t = "(pending_task ''Plan'')\<lparr>status := FAILED, result := Some ''Error: quota exceeded''\<rparr>"
  have i: "2 < length (tasks review_workflow)"
    by (simp add: review_workflow_def)
  have p: "run_tasks sample_env (sample_agent\<lparr>current_workflow := Some review_workflow\<rparr>)
             (take 2 (tasks review_workflow))
           = (Returned True,
              [(pending_task ''Plan'')\<lparr>status := COMPLETED, result := Some ''A study.'',
                               completed_at := Some sample_time\<rparr>,
               waiting_task\<lparr>status := COMPLETED, completed_at := Some sample_time\<rparr>], ?si)"
    using run_first_two by (simp add: review_workflow_def)
  have n: "status (tasks review_workflow ! 2) \<noteq> WAITING_USER"
    by (simp add: review_workflow_def pending_task_def)
  have x: "execute_task sample_env ?si (tasks review_workflow ! 2) = (False, ?t, ?si\<lparr>requests := 2\<rparr>)"
    by (simp add: review_workflow_def execute_task_def pending_task_def route_plan
        handle_generic_task_def generate_def sample_env_def sample_agent_def)
  show ?thesis
    using run_aborts_on_failure [OF i p n x]
    by (simp add: review_workflow_def pending_task_def waiting_task_def)
qed

text \<open>
  Claim C2. A task whose status is \<^verbatim>\<open>WAITING_USER\<close> when the runner visits it is not
  passed to the executor: once \<^verbatim>\<open>input()\<close> has returned, the task is the one the
  workflow had with the status \<^verbatim>\<open>COMPLETED\<close> and the current time as
  \<^verbatim>\<open>completed_at\<close> and nothing else changed (no result, no step through
  \<^verbatim>\<open>IN_PROGRESS\<close>), no request has been sent, and the run goes on with the next task
  from there.
\<close>

theorem run_completes_waiting_task:
  assumes "k < length (tasks w)"
    and "run_tasks e (s\<lparr>current_workflow := Some w\<rparr>) (take k (tasks w)) = (Returned True, pre, sk)"
    and "status (tasks w ! k) = WAITING_USER"
    and "stdin e (inputs sk)"
    and "run_tasks e (sk\<lparr>inputs := Suc (inputs sk), ticks := Suc (ticks sk)\<rparr>)
           (drop (Suc k) (tasks w)) = (out, rest, s')"
  shows "run_tasks e (s\<lparr>current_workflow := Some w\<rparr>) (tasks w)
           = (out, pre @ (tasks w ! k)\<lparr>status := COMPLETED,
                                       completed_at := Some (clock e (ticks sk))\<rparr> # rest, s') \<and>
         tasks (workflow_of (run_workflow e s w))
           = pre @ (tasks w ! k)\<lparr>status := COMPLETED,
                                 completed_at := Some (clock e (ticks sk))\<rparr> # rest \<and>
         length pre = k"
proof -
  let ?s = "s\<lparr>current_workflow := Some w\<rparr>"
  let ?t = "(tasks w ! k)\<lparr>status := COMPLETED, completed_at := Some (clock e (ticks sk))\<rparr>"
  have d: "tasks w = take k (tasks w) @ (tasks w ! k) # drop (Suc k) (tasks w)"
    using assms(1) by (simp add: id_take_nth_drop)
  have f: "run_tasks e sk ((tasks w ! k) # drop (Suc k) (tasks w)) = (out, ?t # rest, s')"
    using assms(3,4,5) by (simp add: datetime_now_def)
  have "run_tasks e ?s (take k (tasks w) @ (tasks w ! k) # drop (Suc k) (tasks w))
          = (out, pre @ ?t # rest, s')"
    using assms(2) f by (rule run_tasks_append_True)
  then have r: "run_tasks e ?s (tasks w) = (out, pre @ ?t # rest, s')"
    using d by simp
  have l: "length pre = k"
    using run_tasks_length [of e ?s "take k (tasks w)"] assms(1,2) by simp
  show ?thesis
    using r l run_workflow_tasks [of e s w] by simp
qed

theorem run_completes_waiting_task_witness:
  "status (tasks review_workflow ! 1) = WAITING_USER \<and>
   tasks (workflow_of (run_workflow sample_env sample_agent review_workflow)) ! 1
     = waiting_task\<lparr>status := COMPLETED, completed_at := Some sample_time\<rparr> \<and>
   length (tasks (workflow_of (run_workflow sample_env sample_agent review_workflow))) = 4"
proof -
  let ?s0 = "sample_agent\<lparr>current_workflow := Some review_workflow\<rparr>"
  let ?sk = "?s0\<lparr>requests := 1, ticks := 1\<rparr>"
  let ?pre = "[(pending_task ''Plan'')\<lparr>status := COMPLETED, result := Some ''A study.'',
                               completed_at := Some sample_time\<rparr>]"
  let ?r = "run_tasks sample_env (?sk\<lparr>inputs := Suc (inputs ?sk), ticks := Suc (ticks ?sk)\<rparr>)
              (drop (Suc 1) (tasks review_workflow))"
  have k: "1 < length (tasks review_workflow)"
    by (simp add: review_workflow_def)
  have p: "run_tasks sample_env ?s0 (take 1 (tasks review_workflow)) = (Returned True, ?pre, ?sk)"
    by (simp add: review_workflow_def execute_task_def pending_task_def route_plan
        handle_generic_task_def generate_def datetime_now_def sample_env_def sample_agent_def)
  have w: "status (tasks review_workflow ! 1) = WAITING_USER"
    by (simp add: review_workflow_def waiting_task_def)
  have a: "stdin sample_env (inputs ?sk)"
    by (simp add: sample_env_def)
  have r: "?r = (fst ?r, fst (snd ?r), snd (snd ?r))" by simp
  have c: "clock sample_env n = sample_time" for n
    by (simp add: sample_env_def)
  have l: "length (fst (snd ?r)) = 2"
    using run_tasks_length [of sample_env _ "drop (Suc 1) (tasks review_workflow)"]
    by (simp add: review_workflow_def)
  have t: "tasks review_workflow ! Suc 0 = waiting_task"
    by (simp add: review_workflow_def)
  show ?thesis
    using run_completes_waiting_task [OF k p w a r] w l
    by (simp add: c t)
qed




end
